theory Spec2Isabelle
  imports Complex_Main
begin

section \<open>Strings\<close>

text \<open>
  A JavaScript string is modelled as a \<^typ>\<open>string\<close> holding its UTF-8 encoding: an ASCII
  character is one \<^typ>\<open>char\<close>, any other code point is its two to four bytes. All
  delimiters the program looks for (\<open>/\<close>, \<open>\\<close>, \<open>#\<close>, \<open>?\<close>, \<open>%\<close>, \<open>,\<close>, the space,
  quotes and parentheses) are ASCII, so searching and splitting on bytes finds the same
  places as searching on code units. \<open>buffer.toString('utf8')\<close> is the identity on a
  well-formed buffer.
\<close>

definition startsWith :: "string \<Rightarrow> string \<Rightarrow> bool" where
  \<comment> \<open>\<open>s.startsWith(t)\<close>\<close>
  "startsWith s t = (take (length t) s = t)"

definition endsWith :: "string \<Rightarrow> string \<Rightarrow> bool" where
  \<comment> \<open>\<open>s.endsWith(t)\<close>\<close>
  "endsWith s t = (length t \<le> length s \<and> drop (length s - length t) s = t)"

fun split_on :: "char \<Rightarrow> string \<Rightarrow> string list" where
  \<comment> \<open>\<open>s.split(c)\<close> for a one-character separator: never the empty list\<close>
  "split_on c [] = [[]]"
| "split_on c (x # xs) =
     (if x = c then [] # split_on c xs
      else (case split_on c xs of [] \<Rightarrow> [[x]] | s # ss \<Rightarrow> (x # s) # ss))"

fun join_with :: "string \<Rightarrow> string list \<Rightarrow> string" where
  \<comment> \<open>\<open>xs.join(sep)\<close>\<close>
  "join_with sep [] = []"
| "join_with sep [x] = x"
| "join_with sep (x # y # ys) = x @ sep @ join_with sep (y # ys)"

definition is_ascii_letter :: "char \<Rightarrow> bool" where
  \<comment> \<open>the class \<open>[a-z]\<close> under the \<open>i\<close> flag\<close>
  "is_ascii_letter c =
     (let n = (of_char c :: nat) in (97 \<le> n \<and> n \<le> 122) \<or> (65 \<le> n \<and> n \<le> 90))"

definition lower_char :: "char \<Rightarrow> char" where
  "lower_char c =
     (let n = (of_char c :: nat) in if 65 \<le> n \<and> n \<le> 90 then char_of (n + 32) else c)"

definition toLowerCase :: "string \<Rightarrow> string" where
  \<comment> \<open>\<open>s.toLowerCase()\<close> on the letters A to Z. The program only compares the lowered
      string with ASCII literals (extensions and the folder name \<open>images\<close>), and no
      character outside ASCII lowers to a string of ASCII letters that those literals
      contain, so the comparisons are the ones JavaScript makes.\<close>
  "toLowerCase s = map lower_char s"

definition ws_tokens :: "string list" where
  \<comment> \<open>WhiteSpace and LineTerminator of ECMAScript (what \<open>trim\<close> removes and \<open>\s\<close> matches),
      each as its UTF-8 bytes: U+0009 to U+000D, U+0020, U+00A0, U+1680, U+2000 to U+200A,
      U+2028, U+2029, U+202F, U+205F, U+3000, U+FEFF\<close>
  "ws_tokens =
     [[CHR 0x09], [CHR 0x0A], [CHR 0x0B], [CHR 0x0C], [CHR 0x0D], [CHR 0x20],
      [CHR 0xC2, CHR 0xA0], [CHR 0xE1, CHR 0x9A, CHR 0x80],
      [CHR 0xE2, CHR 0x80, CHR 0x80], [CHR 0xE2, CHR 0x80, CHR 0x81],
      [CHR 0xE2, CHR 0x80, CHR 0x82], [CHR 0xE2, CHR 0x80, CHR 0x83],
      [CHR 0xE2, CHR 0x80, CHR 0x84], [CHR 0xE2, CHR 0x80, CHR 0x85],
      [CHR 0xE2, CHR 0x80, CHR 0x86], [CHR 0xE2, CHR 0x80, CHR 0x87],
      [CHR 0xE2, CHR 0x80, CHR 0x88], [CHR 0xE2, CHR 0x80, CHR 0x89],
      [CHR 0xE2, CHR 0x80, CHR 0x8A], [CHR 0xE2, CHR 0x80, CHR 0xA8],
      [CHR 0xE2, CHR 0x80, CHR 0xA9], [CHR 0xE2, CHR 0x80, CHR 0xAF],
      [CHR 0xE2, CHR 0x81, CHR 0x9F], [CHR 0xE3, CHR 0x80, CHR 0x80],
      [CHR 0xEF, CHR 0xBB, CHR 0xBF]]"

fun tok_len :: "string list \<Rightarrow> string \<Rightarrow> nat" where
  \<comment> \<open>the length of the first token that the string starts with, 0 when there is none\<close>
  "tok_len [] s = 0"
| "tok_len (t # ts) s = (if startsWith s t then length t else tok_len ts s)"

fun strip_toks :: "string list \<Rightarrow> nat \<Rightarrow> string \<Rightarrow> string" where
  \<comment> \<open>drops tokens from the front as long as one matches; the counter is the number of
      bytes of the current token still to drop\<close>
  "strip_toks ts n [] = []"
| "strip_toks ts (Suc n) (c # cs) = strip_toks ts n cs"
| "strip_toks ts 0 (c # cs) =
     (case tok_len ts (c # cs) of 0 \<Rightarrow> c # cs | Suc n \<Rightarrow> strip_toks ts n cs)"

definition trim :: "string \<Rightarrow> string" where
  \<comment> \<open>\<open>s.trim()\<close>\<close>
  "trim s = rev (strip_toks (map rev ws_tokens) 0 (rev (strip_toks ws_tokens 0 s)))"

section \<open>The built-in \<open>decodeURI\<close>\<close>

text \<open>
  ECMAScript's \<open>Decode\<close> with the reserved set of \<open>decodeURI\<close>: an escape \<open>%XX\<close> below 0x80
  is replaced by its character unless that character is reserved (then the escape stays as
  written); escapes from 0x80 on must form the UTF-8 encoding of one code point, which
  replaces them; anything else throws \<open>URIError\<close>, here \<open>None\<close>.
\<close>

datatype uri_tok = Lit char | Oct nat char char

definition hexval :: "char \<Rightarrow> nat option" where
  "hexval c =
     (let n = (of_char c :: nat) in
      if 48 \<le> n \<and> n \<le> 57 then Some (n - 48)
      else if 65 \<le> n \<and> n \<le> 70 then Some (n - 55)
      else if 97 \<le> n \<and> n \<le> 102 then Some (n - 87)
      else None)"

fun pct_tokens :: "string \<Rightarrow> uri_tok list option" where
  "pct_tokens [] = Some []"
| "pct_tokens (c # cs) =
     (if c = CHR ''%'' then
        (case cs of
           h1 # h2 # rest \<Rightarrow>
             (case (hexval h1, hexval h2) of
                (Some a, Some b) \<Rightarrow> map_option ((#) (Oct (16 * a + b) h1 h2)) (pct_tokens rest)
              | _ \<Rightarrow> None)
         | _ \<Rightarrow> None)
      else map_option ((#) (Lit c)) (pct_tokens cs))"

definition uriReserved :: string where
  "uriReserved = '';/?:@&=+$,#''"

definition cont :: "nat \<Rightarrow> bool" where
  \<comment> \<open>a UTF-8 continuation byte\<close>
  "cont b = (0x80 \<le> b \<and> b \<le> 0xBF)"

definition utf8_second :: "nat \<Rightarrow> nat \<Rightarrow> bool" where
  \<comment> \<open>the second byte allowed after the lead byte of a three or four byte sequence: no
      overlong form, no surrogate, nothing above U+10FFFF\<close>
  "utf8_second b0 b1 =
     (if b0 = 0xE0 then 0xA0 \<le> b1 \<and> b1 \<le> 0xBF
      else if b0 = 0xED then 0x80 \<le> b1 \<and> b1 \<le> 0x9F
      else if b0 = 0xF0 then 0x90 \<le> b1 \<and> b1 \<le> 0xBF
      else if b0 = 0xF4 then 0x80 \<le> b1 \<and> b1 \<le> 0x8F
      else cont b1)"

fun decode_toks :: "uri_tok list \<Rightarrow> string option" where
  "decode_toks [] = Some []"
| "decode_toks (Lit c # ts) = map_option ((#) c) (decode_toks ts)"
| "decode_toks (Oct b h1 h2 # ts) =
     (if b < 0x80 then
        (if char_of b \<in> set uriReserved
         then map_option (\<lambda>r. CHR ''%'' # h1 # h2 # r) (decode_toks ts)
         else map_option ((#) (char_of b)) (decode_toks ts))
      else if b < 0xC2 then None
      else if b < 0xE0 then
        (case ts of
           Oct b1 _ _ # r \<Rightarrow>
             if cont b1 then map_option (\<lambda>x. char_of b # char_of b1 # x) (decode_toks r)
             else None
         | _ \<Rightarrow> None)
      else if b < 0xF0 then
        (case ts of
           Oct b1 _ _ # Oct b2 _ _ # r \<Rightarrow>
             if utf8_second b b1 \<and> cont b2
             then map_option (\<lambda>x. char_of b # char_of b1 # char_of b2 # x) (decode_toks r)
             else None
         | _ \<Rightarrow> None)
      else if b < 0xF5 then
        (case ts of
           Oct b1 _ _ # Oct b2 _ _ # Oct b3 _ _ # r \<Rightarrow>
             if utf8_second b b1 \<and> cont b2 \<and> cont b3
             then map_option (\<lambda>x. char_of b # char_of b1 # char_of b2 # char_of b3 # x)
                    (decode_toks r)
             else None
         | _ \<Rightarrow> None)
      else None)"

definition decodeURI :: "string \<Rightarrow> string option" where
  "decodeURI s = (case pct_tokens s of None \<Rightarrow> None | Some ts \<Rightarrow> decode_toks ts)"

section \<open>Node's \<open>path.posix\<close>\<close>

text \<open>
  \<open>path.posix.normalize\<close>, \<open>join\<close>, \<open>resolve\<close>, \<open>relative\<close> and \<open>basename\<close> as Node
  documents and implements them, written on the list of segments between slashes.
  \<open>resolve\<close> and \<open>relative\<close> read the working directory of the process, which is the
  parameter \<open>cwd\<close> (an absolute path).
\<close>

definition norm_step :: "bool \<Rightarrow> string list \<Rightarrow> string \<Rightarrow> string list" where
  \<comment> \<open>one segment of \<open>normalizeString\<close>; the segments kept so far are a stack, last first.
      An empty segment and \<open>.\<close> are skipped, \<open>..\<close> removes the last segment kept unless
      there is none or it is \<open>..\<close> itself, then it is kept if the path may climb\<close>
  "norm_step allowAboveRoot st seg =
     (if seg = [] \<or> seg = ''.'' then st
      else if seg = ''..'' then
        (case st of
           [] \<Rightarrow> if allowAboveRoot then [''..''] else []
         | t # ts \<Rightarrow>
             if t = ''..'' then (if allowAboveRoot then ''..'' # st else st) else ts)
      else seg # st)"

definition normalizeString :: "bool \<Rightarrow> string \<Rightarrow> string" where
  "normalizeString allowAboveRoot p =
     join_with ''/'' (rev (foldl (norm_step allowAboveRoot) [] (split_on CHR ''/'' p)))"

definition posix_normalize :: "string \<Rightarrow> string" where
  "posix_normalize p =
     (if p = [] then ''.''
      else
        (let isAbsolute = (hd p = CHR ''/'');
             trailingSeparator = (last p = CHR ''/'');
             n = normalizeString (\<not> isAbsolute) p
         in if n = [] then (if isAbsolute then ''/'' else if trailingSeparator then ''./'' else ''.'')
            else (let n' = (if trailingSeparator then n @ ''/'' else n)
                  in if isAbsolute then CHR ''/'' # n' else n')))"

definition posix_join :: "string list \<Rightarrow> string" where
  "posix_join args =
     (let joined = filter (\<lambda>a. a \<noteq> []) args
      in if joined = [] then ''.'' else posix_normalize (join_with ''/'' joined))"

definition posix_resolve :: "string \<Rightarrow> string \<Rightarrow> string" where
  \<comment> \<open>\<open>path.posix.resolve(p)\<close> with one argument\<close>
  "posix_resolve cwd p =
     (let r1 = (if p = [] then [] else p @ ''/'');
          abs1 = (p \<noteq> [] \<and> hd p = CHR ''/'');
          r2 = (if abs1 \<or> cwd = [] then r1 else cwd @ ''/'' @ r1);
          abs2 = (if abs1 \<or> cwd = [] then abs1 else hd cwd = CHR ''/'');
          n = normalizeString (\<not> abs2) r2
      in if abs2 then CHR ''/'' # n else if n \<noteq> [] then n else ''.'')"

definition segments :: "string \<Rightarrow> string list" where
  "segments p = filter (\<lambda>s. s \<noteq> []) (split_on CHR ''/'' p)"

fun drop_common :: "string list \<Rightarrow> string list \<Rightarrow> string list \<times> string list" where
  "drop_common (x # xs) (y # ys) = (if x = y then drop_common xs ys else (x # xs, y # ys))"
| "drop_common xs ys = (xs, ys)"

definition posix_relative :: "string \<Rightarrow> string \<Rightarrow> string \<Rightarrow> string" where
  \<comment> \<open>\<open>path.posix.relative(from, to)\<close>: both are resolved, the segments they share at the
      front are dropped, every segment left of \<open>from\<close> becomes \<open>..\<close>\<close>
  "posix_relative cwd from to =
     (if from = to then []
      else
        (let f = posix_resolve cwd from; t = posix_resolve cwd to
         in if f = t then []
            else (case drop_common (segments f) (segments t) of
                    (fr, tr) \<Rightarrow> join_with ''/'' (map (\<lambda>_. ''..'') fr @ tr))))"

definition posix_basename :: "string \<Rightarrow> string" where
  \<comment> \<open>\<open>path.posix.basename(p)\<close>: the last segment, trailing slashes ignored\<close>
  "posix_basename p =
     rev (takeWhile (\<lambda>c. c \<noteq> CHR ''/'') (dropWhile (\<lambda>c. c = CHR ''/'') (rev p)))"

section \<open>The path resolver\<close>

definition normalize_js :: "string \<Rightarrow> string" where
  \<comment> \<open>\<open>normalize\<close>: \<open>p.replace(/\\/g, '/')\<close>\<close>
  "normalize_js p = map (\<lambda>c. if c = CHR 0x5C then CHR ''/'' else c) p"

definition safeJoin :: "string list \<Rightarrow> string" where
  "safeJoin segs = normalize_js (posix_join segs)"

definition stripQueryAndHash :: "string \<Rightarrow> string" where
  \<comment> \<open>\<open>ref.split('#')[0].split('?')[0]\<close>\<close>
  "stripQueryAndHash ref = hd (split_on CHR ''?'' (hd (split_on CHR ''#'' ref)))"

definition decodeRef :: "string \<Rightarrow> string" where
  \<comment> \<open>\<open>try { return decodeURI(ref); } catch { return ref; }\<close>\<close>
  "decodeRef ref = (case decodeURI ref of Some r \<Rightarrow> r | None \<Rightarrow> ref)"

definition is_absolute_url :: "string \<Rightarrow> bool" where
  \<comment> \<open>\<open>/^([a-z]+:)?\/\//i.test(href)\<close>: the letters are taken greedily and must be followed
      by \<open>://\<close>; without the optional group the string starts with \<open>//\<close>\<close>
  "is_absolute_url href =
     (let letters = takeWhile is_ascii_letter href;
          rest = dropWhile is_ascii_letter href
      in (letters \<noteq> [] \<and> startsWith rest ''://'') \<or> startsWith href ''//'')"

definition baseDirOf :: "string \<Rightarrow> string" where
  \<comment> \<open>\<open>normalize(baseFilePath).replace(/[^/]+$/, '')\<close>\<close>
  "baseDirOf baseFilePath =
     rev (dropWhile (\<lambda>c. c \<noteq> CHR ''/'') (rev (normalize_js baseFilePath)))"

definition resolveRef :: "string \<Rightarrow> string \<Rightarrow> string \<Rightarrow> string \<Rightarrow> string" where
  \<comment> \<open>\<open>resolveRef(baseFilePath, href, contentRoot)\<close>; the empty string is the result
      "unresolvable". The first argument is the working directory that
      \<open>path.posix.relative\<close> reads.\<close>
  "resolveRef cwd baseFilePath href contentRoot =
     (if href = [] then []
      else if is_absolute_url href \<or> startsWith href ''data:'' then []
      else
        (let clean = stripQueryAndHash (trim href);
             clean = decodeRef clean;
             clean = (if startsWith clean ''/'' then drop 1 clean else clean);
             baseDir = baseDirOf baseFilePath;
             abs = normalize_js (posix_normalize (safeJoin [baseDir, clean]))
         in if contentRoot \<noteq> [] then
              (let relToRoot = posix_relative cwd (normalize_js contentRoot) abs
               in if startsWith relToRoot ''..'' then [] else abs)
            else abs))"

section \<open>Canonical paths\<close>



section \<open>The archive and the external collaborators\<close>

record archive_file =
  path :: string
  buffer :: string

type_synonym files = "(string \<times> archive_file) list"
  \<comment> \<open>a JavaScript \<open>Map\<close>: the keys are distinct and keep the order of their first insertion\<close>

definition Map_get :: "files \<Rightarrow> string \<Rightarrow> archive_file option" where
  "Map_get m k = map_of m k"

definition Map_set :: "string \<Rightarrow> archive_file \<Rightarrow> files \<Rightarrow> files" where
  "Map_set k v m =
     (if k \<in> set (map fst m) then map (\<lambda>(k', v'). if k' = k then (k', v) else (k', v')) m
      else m @ [(k, v)])"

definition Set_add :: "string \<Rightarrow> string list \<Rightarrow> string list" where
  \<comment> \<open>\<open>Set.prototype.add\<close> on a set kept in insertion order\<close>
  "Set_add x s = (if x \<in> set s then s else s @ [x])"

definition Set_of :: "string list \<Rightarrow> string list" where
  \<comment> \<open>\<open>new Set(xs)\<close>\<close>
  "Set_of xs = foldl (\<lambda>s x. Set_add x s) [] xs"

record zip_entry =
  entry_type :: string
  entry_path :: string
  entry_buffer :: "string option"  \<comment> \<open>\<open>await f.buffer()\<close>; \<open>None\<close> when it rejects\<close>

datatype xval =
    XStr string
  | XPrim bool  \<comment> \<open>a number or boolean, with its truthiness\<close>
  | XObj "(string \<times> xval) list"
  | XArr "xval list"
  \<comment> \<open>what \<open>XMLParser.parse\<close> returns\<close>

record element =
  el_tag :: string
  el_attrs :: "(string \<times> string) list"
  el_text :: string
  \<comment> \<open>an element of the tree that \<open>cheerio.load\<close> returns, with the name as the selector
      engine compares it, its attributes (\<open>$(el).attr(name)\<close>) and \<open>$(el).text()\<close>\<close>

record dims =
  width :: nat
  height :: nat
  \<comment> \<open>the result of \<open>imageSize\<close>; a missing field counts as 0, which is as falsy\<close>

datatype jsnum = NaN | NegInf | Fin rat | PosInf
  \<comment> \<open>a JavaScript number; \<open>Fin 0\<close> stands for both zeros\<close>

record env =
  cwd :: string  \<comment> \<open>\<open>process.cwd()\<close>\<close>
  unzipper_Open :: "string \<Rightarrow> zip_entry list option"  \<comment> \<open>\<open>directory.files\<close>, \<open>None\<close> when opening throws\<close>
  XMLParser_parse :: "string \<Rightarrow> xval option"  \<comment> \<open>\<open>None\<close> when parsing throws\<close>
  cheerio_load :: "bool \<Rightarrow> string \<Rightarrow> element list option"
    \<comment> \<open>\<open>xmlMode\<close> and the text to the elements in document order, \<open>None\<close> when it throws\<close>
  imageSize :: "string \<Rightarrow> dims option"  \<comment> \<open>\<open>None\<close> when it throws\<close>
  Number_of :: "string \<Rightarrow> jsnum"  \<comment> \<open>the built-in \<open>Number\<close> on a string\<close>

definition DEFAULT_PIXEL_THRESHOLD :: rat where
  "DEFAULT_PIXEL_THRESHOLD = 5600000"

definition IMG_EXT_REGEX :: "string \<Rightarrow> bool" where
  \<comment> \<open>\<open>/\.(png|jpe?g|gif)$/i.test(p)\<close>\<close>
  "IMG_EXT_REGEX p =
     (let l = toLowerCase p
      in endsWith l ''.png'' \<or> endsWith l ''.jpg'' \<or> endsWith l ''.jpeg'' \<or> endsWith l ''.gif'')"

section \<open>Container and package documents\<close>

fun get_prop :: "xval option \<Rightarrow> string \<Rightarrow> xval option" where
  \<comment> \<open>\<open>v?.[name]\<close> for the names read here, none of which a string, number or array has\<close>
  "get_prop (Some (XObj kvs)) name = map_of kvs name"
| "get_prop _ name = None"

fun truthy :: "xval option \<Rightarrow> bool" where
  "truthy None = False"
| "truthy (Some (XStr s)) = (s \<noteq> [])"
| "truthy (Some (XPrim b)) = b"
| "truthy (Some _) = True"

definition getContentRootFromContainerXml :: "env \<Rightarrow> string \<Rightarrow> string" where
  "getContentRootFromContainerXml e xml =
     (case XMLParser_parse e xml of
        None \<Rightarrow> []
      | Some doc \<Rightarrow>
          (let rootfiles = get_prop (get_prop (Some doc) ''container'') ''rootfiles'';
               rootfile = get_prop rootfiles ''rootfile'';
               fullPath =
                 (case rootfile of
                    Some (XArr xs) \<Rightarrow> (case xs of [] \<Rightarrow> None | x # _ \<Rightarrow> get_prop (Some x) ''@_full-path'')
                  | _ \<Rightarrow> get_prop rootfile ''@_full-path'')
           in if \<not> truthy fullPath then []
              else (case fullPath of
                      Some (XStr s) \<Rightarrow> normalize_js (rev (dropWhile (\<lambda>c. c \<noteq> CHR ''/'') (rev s)))
                    | _ \<Rightarrow> [] \<comment> \<open>\<open>fullPath.replace\<close> is not a function: caught\<close>)))"

fun manifest_items :: "xval list \<Rightarrow> string list \<Rightarrow> string list option" where
  \<comment> \<open>the loop over the manifest items; \<open>None\<close> when \<open>mt.startsWith\<close> or \<open>normalize(href)\<close>
      is applied to a value that is not a string and throws\<close>
  "manifest_items [] hrefs = Some hrefs"
| "manifest_items (it # its) hrefs =
     (let mt = get_prop (Some it) ''@_media-type''; href = get_prop (Some it) ''@_href''
      in if \<not> truthy mt then manifest_items its hrefs
         else (case mt of
                 Some (XStr m) \<Rightarrow>
                   if startsWith m ''image/'' \<and> truthy href then
                     (case href of
                        Some (XStr h) \<Rightarrow> manifest_items its (Set_add (normalize_js h) hrefs)
                      | _ \<Rightarrow> None)
                   else manifest_items its hrefs
               | _ \<Rightarrow> None))"

definition getManifestImagesFromOpf :: "env \<Rightarrow> string \<Rightarrow> string list" where
  "getManifestImagesFromOpf e xml =
     (case XMLParser_parse e xml of
        None \<Rightarrow> []
      | Some doc \<Rightarrow>
          (let manifest = get_prop (get_prop (get_prop (Some doc) ''package'') ''manifest'') ''item'';
               items = (case manifest of
                          None \<Rightarrow> []
                        | Some (XArr xs) \<Rightarrow> xs
                        | Some v \<Rightarrow> if truthy (Some v) then [v] else [])
           in case manifest_items items [] of None \<Rightarrow> [] | Some hrefs \<Rightarrow> hrefs))"

fun unzip_loop :: "zip_entry list \<Rightarrow> files \<Rightarrow> files option" where
  "unzip_loop [] files = Some files"
| "unzip_loop (f # fs) files =
     (if entry_type f \<noteq> ''File'' then unzip_loop fs files
      else (case entry_buffer f of
              None \<Rightarrow> None
            | Some buf \<Rightarrow>
                (let p = normalize_js (entry_path f)
                 in unzip_loop fs (Map_set p \<lparr>path = p, buffer = buf\<rparr> files))))"

definition unzipToMap :: "env \<Rightarrow> string \<Rightarrow> files option" where
  "unzipToMap e buf =
     (case unzipper_Open e buf of None \<Rightarrow> None | Some directory \<Rightarrow> unzip_loop directory [])"

section \<open>Candidates and references\<close>

record options =
  includeHtml :: bool
  includeCss :: bool
  includeSvg :: bool
  searchAllImages :: bool
  followOpfManifestOnly :: bool
  pixelThreshold :: jsnum

definition isImageFile :: "string \<Rightarrow> bool" where
  "isImageFile p = (\<exists>e \<in> set [''.png'', ''.jpg'', ''.jpeg'', ''.gif'']. endsWith (toLowerCase p) e)"

definition inImagesFolder :: "string \<Rightarrow> bool" where
  "inImagesFolder p = (''images'' \<in> set (split_on CHR ''/'' (toLowerCase p)))"

definition listCandidateImages :: "files \<Rightarrow> options \<Rightarrow> string list" where
  "listCandidateImages files opts =
     filter (\<lambda>p. isImageFile p \<and> (searchAllImages opts \<or> inImagesFolder p)) (map fst files)"

text \<open>
  \<open>extractUrlsFromCss\<close> runs \<open>/url\(\s*(["']?)([^)"']+)\1\s*\)/gi\<close> over the text. After
  \<open>url(\<close> the engine takes all the white space, then an optional quote, then the longest
  run of characters other than \<open>)\<close>, \<open>"\<close> and \<open>'\<close>. With a quote the run must be followed
  by the same quote, white space and \<open>)\<close>. Without one it must be followed by \<open>)\<close> at
  once; giving characters of the run back cannot help, since \<open>)\<close> is not in the run. When
  the run is empty and \<open>)\<close> follows the white space, the engine gives the last white-space
  character back and that character is the captured group.
\<close>

fun skip_ws :: "nat \<Rightarrow> string \<Rightarrow> string \<Rightarrow> string \<times> string" where
  \<comment> \<open>\<open>\s*\<close>, greedy: the last white-space character taken (empty when none) and the rest\<close>
  "skip_ws n lst [] = (lst, [])"
| "skip_ws (Suc n) lst (c # cs) = skip_ws n lst cs"
| "skip_ws 0 lst (c # cs) =
     (case tok_len ws_tokens (c # cs) of
        0 \<Rightarrow> (lst, c # cs)
      | Suc n \<Rightarrow> skip_ws n (take (Suc n) (c # cs)) cs)"

definition url_body_char :: "char \<Rightarrow> bool" where
  \<comment> \<open>the class \<open>[^)"']\<close>\<close>
  "url_body_char c = (c \<noteq> CHR '')'' \<and> c \<noteq> CHR 0x22 \<and> c \<noteq> CHR 0x27)"

definition url_match :: "string \<Rightarrow> (string \<times> string) option" where
  \<comment> \<open>a match of the expression at the front of the text: group 2 and the text after the match\<close>
  "url_match s =
     (if toLowerCase (take 4 s) \<noteq> ''url('' then None
      else
        (case skip_ws 0 [] (drop 4 s) of
           (lastws, r1) \<Rightarrow>
             if r1 \<noteq> [] \<and> (hd r1 = CHR 0x22 \<or> hd r1 = CHR 0x27) then
               (let body = takeWhile url_body_char (tl r1);
                    r3 = dropWhile url_body_char (tl r1)
                in if body \<noteq> [] \<and> r3 \<noteq> [] \<and> hd r3 = hd r1 then
                     (case skip_ws 0 [] (tl r3) of
                        (_, r5) \<Rightarrow> if startsWith r5 '')'' then Some (body, tl r5) else None)
                   else None)
             else
               (let body = takeWhile url_body_char r1;
                    r3 = dropWhile url_body_char r1
                in if body \<noteq> [] then (if startsWith r3 '')'' then Some (body, tl r3) else None)
                   else if lastws \<noteq> [] \<and> startsWith r1 '')'' then Some (lastws, tl r1)
                   else None)))"

fun css_scan :: "nat \<Rightarrow> string \<Rightarrow> string list" where
  \<comment> \<open>the \<open>while ((m = re.exec(cssText)) !== null)\<close> loop: the leftmost match from
      \<open>lastIndex\<close> on, then on from its end; the counter is the rest of the current match\<close>
  "css_scan n [] = []"
| "css_scan (Suc n) (c # cs) = css_scan n cs"
| "css_scan 0 (c # cs) =
     (case url_match (c # cs) of
        None \<Rightarrow> css_scan 0 cs
      | Some (body, rest) \<Rightarrow> body # css_scan (length cs - length rest) cs)"

definition extractUrlsFromCss :: "string \<Rightarrow> string list" where
  "extractUrlsFromCss cssText = css_scan 0 cssText"

definition attr :: "element \<Rightarrow> string \<Rightarrow> string option" where
  \<comment> \<open>\<open>$(el).attr(name)\<close>, \<open>None\<close> for \<open>undefined\<close>\<close>
  "attr el name = map_of (el_attrs el) name"

definition or_empty :: "string option \<Rightarrow> string" where
  \<comment> \<open>\<open>v || ''\<close>; also the reference passed to \<open>resolveRef\<close>, which returns \<open>''\<close> for
      \<open>undefined\<close> as for the empty string\<close>
  "or_empty v = (case v of None \<Rightarrow> [] | Some s \<Rightarrow> s)"

definition image_href :: "element \<Rightarrow> string" where
  \<comment> \<open>\<open>$(el).attr('href') || $(el).attr('xlink:href')\<close>\<close>
  "image_href el =
     (if or_empty (attr el ''href'') \<noteq> [] then or_empty (attr el ''href'')
      else or_empty (attr el ''xlink:href''))"

definition srcset_hrefs :: "element \<Rightarrow> string list" where
  "srcset_hrefs el =
     map (\<lambda>part. hd (split_on CHR '' '' (trim part)))
       (split_on CHR '','' (or_empty (attr el ''srcset'')))"

definition isDoc :: "options \<Rightarrow> string \<Rightarrow> bool" where
  "isDoc opts p =
     (\<exists>e \<in> set ([''.xhtml''] @ (if includeHtml opts then [''.html'', ''.htm''] else [])).
        endsWith (toLowerCase p) e)"

definition isCss :: "string \<Rightarrow> bool" where
  "isCss p = endsWith (toLowerCase p) ''.css''"

definition isSvg :: "string \<Rightarrow> bool" where
  "isSvg p = endsWith (toLowerCase p) ''.svg''"

definition doc_hrefs :: "options \<Rightarrow> element list \<Rightarrow> string list" where
  \<comment> \<open>the references of a markup document in the order the four \<open>each\<close> loops visit them\<close>
  "doc_hrefs opts els =
     map (\<lambda>el. or_empty (attr el ''src''))
       (filter (\<lambda>el. el_tag el = ''img'' \<and> attr el ''src'' \<noteq> None) els)
     @ concat (map srcset_hrefs (filter (\<lambda>el. attr el ''srcset'' \<noteq> None) els))
     @ concat (map (\<lambda>el. extractUrlsFromCss (or_empty (attr el ''style'')))
         (filter (\<lambda>el. attr el ''style'' \<noteq> None) els))
     @ (if includeSvg opts then map image_href (filter (\<lambda>el. el_tag el = ''image'') els) else [])"

definition svg_hrefs :: "element list \<Rightarrow> string list" where
  "svg_hrefs els =
     map image_href (filter (\<lambda>el. el_tag el = ''image'') els)
     @ concat (map (\<lambda>el. extractUrlsFromCss (el_text el)) (filter (\<lambda>el. el_tag el = ''style'') els))"

definition file_hrefs :: "env \<Rightarrow> options \<Rightarrow> string \<Rightarrow> archive_file \<Rightarrow> string list option" where
  \<comment> \<open>the raw references that one pass of the loop body of \<open>collectReferences\<close> extracts
      from the file \<open>p\<close>; \<open>None\<close> when \<open>cheerio.load\<close> throws in the markup branch, which has
      no \<open>try\<close>. In the vector branch the exception is caught and the branch adds nothing.\<close>
  "file_hrefs e opts p obj =
     (let css = (if includeCss opts \<and> isCss p then extractUrlsFromCss (buffer obj) else []);
          svg = (if includeSvg opts \<and> isSvg p then
                   (case cheerio_load e True (buffer obj) of None \<Rightarrow> [] | Some els \<Rightarrow> svg_hrefs els)
                 else [])
      in if isDoc opts p then
           (case cheerio_load e (endsWith (toLowerCase p) ''.xhtml'') (buffer obj) of
              None \<Rightarrow> None
            | Some els \<Rightarrow> Some (doc_hrefs opts els @ css @ svg))
         else Some (css @ svg))"

definition add_ref :: "env \<Rightarrow> string \<Rightarrow> string \<Rightarrow> string list \<Rightarrow> string \<Rightarrow> string list" where
  \<comment> \<open>\<open>const abs = resolveRef(p, href, contentRoot); if (abs) usedAbs.add(abs);\<close>\<close>
  "add_ref e p contentRoot usedAbs href =
     (let abs = resolveRef (cwd e) p href contentRoot
      in if abs \<noteq> [] then Set_add abs usedAbs else usedAbs)"

fun collect_loop :: "env \<Rightarrow> string \<Rightarrow> options \<Rightarrow> files \<Rightarrow> string list \<Rightarrow> string list option" where
  "collect_loop e contentRoot opts [] usedAbs = Some usedAbs"
| "collect_loop e contentRoot opts ((p, obj) # rest) usedAbs =
     (case file_hrefs e opts p obj of
        None \<Rightarrow> None
      | Some hrefs \<Rightarrow> collect_loop e contentRoot opts rest (foldl (add_ref e p contentRoot) usedAbs hrefs))"

definition collectReferences :: "env \<Rightarrow> files \<Rightarrow> string \<Rightarrow> options \<Rightarrow> string list option" where
  \<comment> \<open>the set \<open>usedAbs\<close>, or \<open>None\<close> when an exception leaves the function\<close>
  "collectReferences e files contentRoot opts = collect_loop e contentRoot opts files []"

section \<open>The request handler\<close>

record query =
  q_includeHtml :: "string option"
  q_includeCss :: "string option"
  q_includeSvg :: "string option"
  q_searchAllImages :: "string option"
  q_followOpfManifestOnly :: "string option"
  q_pixelThreshold :: "string option"
  q_epubBasePath :: "string option"
  \<comment> \<open>\<open>req.query\<close>; \<open>None\<close> is a parameter that is absent\<close>

record request =
  req_file :: "string option"  \<comment> \<open>\<open>req.file.buffer\<close>, \<open>None\<close> when there is no upload\<close>
  req_query :: query

definition js_truthy :: "jsnum \<Rightarrow> bool" where
  "js_truthy n = (n \<noteq> NaN \<and> n \<noteq> Fin 0)"

definition effectiveThreshold :: "env \<Rightarrow> string option \<Rightarrow> jsnum" where
  \<comment> \<open>\<open>Number(q.pixelThreshold || DEFAULT_PIXEL_THRESHOLD) || DEFAULT_PIXEL_THRESHOLD\<close>\<close>
  "effectiveThreshold e qv =
     (let n = (if or_empty qv \<noteq> [] then Number_of e (or_empty qv) else Fin DEFAULT_PIXEL_THRESHOLD)
      in if js_truthy n then n else Fin DEFAULT_PIXEL_THRESHOLD)"

definition mkOptions :: "env \<Rightarrow> query \<Rightarrow> options" where
  "mkOptions e q =
     \<lparr>includeHtml = (q_includeHtml q = Some ''true''),
      includeCss = (q_includeCss q = Some ''true''),
      includeSvg = (q_includeSvg q = Some ''true''),
      searchAllImages = (q_searchAllImages q = Some ''true''),
      followOpfManifestOnly = (q_followOpfManifestOnly q = Some ''true''),
      pixelThreshold = effectiveThreshold e (q_pixelThreshold q)\<rparr>"

definition mkEpubBasePath :: "query \<Rightarrow> string" where
  \<comment> \<open>\<open>q.epubBasePath ? q.epubBasePath.replace(/[\\\/]$/, '') : ''\<close>\<close>
  "mkEpubBasePath q =
     (let s = or_empty (q_epubBasePath q)
      in if s \<noteq> [] \<and> (last s = CHR 0x5C \<or> last s = CHR ''/'') then butlast s else s)"

definition buildFullPath :: "string \<Rightarrow> string \<Rightarrow> string" where
  \<comment> \<open>\<open>path.join\<close> is the one of the platform, here POSIX\<close>
  "buildFullPath internalPath epubBasePath =
     (if epubBasePath \<noteq> [] then posix_join [epubBasePath, internalPath] else internalPath)"

record item =
  file_name :: string
  internalPath :: string
  fullPath :: string

record oversized_item = item +
  img_width :: nat
  img_height :: nat
  px :: nat

fun area_ge :: "nat \<Rightarrow> jsnum \<Rightarrow> bool" where
  \<comment> \<open>\<open>dim.width * dim.height >= options.pixelThreshold\<close>, the product taken exactly\<close>
  "area_ge a NaN = False"
| "area_ge a NegInf = True"
| "area_ge a (Fin t) = (t \<le> of_nat a)"
| "area_ge a PosInf = False"

definition manifestAbsOf :: "env \<Rightarrow> files \<Rightarrow> options \<Rightarrow> string \<Rightarrow> string list" where
  \<comment> \<open>the set \<open>manifestAbs\<close>: empty unless the option is set, the content root is not empty
      and a key under the root ends in \<open>.opf\<close>; then the hrefs of the first such file\<close>
  "manifestAbsOf e files opts contentRoot =
     (if followOpfManifestOnly opts \<and> contentRoot \<noteq> [] then
        (case filter (\<lambda>p. startsWith p contentRoot \<and> endsWith (toLowerCase p) ''.opf'') (map fst files) of
           [] \<Rightarrow> []
         | p # _ \<Rightarrow>
             (case Map_get files p of
                None \<Rightarrow> [] \<comment> \<open>not reached: \<open>p\<close> is a key\<close>
              | Some obj \<Rightarrow>
                  Set_of (map (\<lambda>h. normalize_js (posix_join [normalize_js contentRoot, normalize_js h]))
                    (getManifestImagesFromOpf e (buffer obj)))))
      else [])"

definition candidatesAbsOf :: "files \<Rightarrow> options \<Rightarrow> string list \<Rightarrow> string list" where
  \<comment> \<open>\<open>if (options.followOpfManifestOnly && !manifestAbs.has(p)) continue;\<close>\<close>
  "candidatesAbsOf files opts manifestAbs =
     filter (\<lambda>p. \<not> (followOpfManifestOnly opts \<and> p \<notin> set manifestAbs))
       (listCandidateImages files opts)"

definition unreferenced_of :: "string list \<Rightarrow> string \<Rightarrow> string \<Rightarrow> item list" where
  \<comment> \<open>what one candidate adds to \<open>unreferenced\<close>\<close>
  "unreferenced_of usedAbs epubBasePath absPath =
     (if absPath \<notin> set usedAbs then
        [\<lparr>file_name = posix_basename absPath, internalPath = absPath, fullPath = buildFullPath absPath epubBasePath\<rparr>]
      else [])"

definition oversized_of :: "env \<Rightarrow> files \<Rightarrow> options \<Rightarrow> string \<Rightarrow> string \<Rightarrow> oversized_item list" where
  \<comment> \<open>what one candidate adds to \<open>oversized\<close>; every exception inside the \<open>try\<close> adds nothing\<close>
  "oversized_of e files opts epubBasePath absPath =
     (if IMG_EXT_REGEX absPath then
        (case Map_get files absPath of
           None \<Rightarrow> []
         | Some obj \<Rightarrow>
             (case imageSize e (buffer obj) of
                None \<Rightarrow> []
              | Some d \<Rightarrow>
                  if width d \<noteq> 0 \<and> height d \<noteq> 0
                     \<and> area_ge (width d * height d) (pixelThreshold opts)
                  then [\<lparr>file_name = posix_basename absPath, internalPath = absPath,
                         fullPath = buildFullPath absPath epubBasePath,
                         img_width = width d, img_height = height d,
                         px = width d * height d\<rparr>]
                  else []))
      else [])"

fun classify :: "env \<Rightarrow> files \<Rightarrow> options \<Rightarrow> string list \<Rightarrow> string \<Rightarrow> string list
    \<Rightarrow> item list \<times> oversized_item list" where
  \<comment> \<open>the loop \<open>for (const abs of candidatesAbs)\<close>\<close>
  "classify e files opts usedAbs epubBasePath [] = ([], [])"
| "classify e files opts usedAbs epubBasePath (absPath # rest) =
     (case classify e files opts usedAbs epubBasePath rest of
        (unreferenced, oversized) \<Rightarrow>
          (unreferenced_of usedAbs epubBasePath absPath @ unreferenced,
           oversized_of e files opts epubBasePath absPath @ oversized))"

record response =
  unreferenced :: "item list"
  oversized :: "oversized_item list"
  contentRoot :: string
  epubBasePath :: string
  \<comment> \<open>the JSON body of the answer, without the text report built from the two lists\<close>

datatype failure = MissingFile | ServerError
  \<comment> \<open>status 400 for a request without upload, status 500 for a caught exception\<close>

definition contentRootOf :: "env \<Rightarrow> files \<Rightarrow> string" where
  "contentRootOf e files =
     (case Map_get files ''META-INF/container.xml'' of
        None \<Rightarrow> []
      | Some container \<Rightarrow> getContentRootFromContainerXml e (buffer container))"

definition validate :: "env \<Rightarrow> request \<Rightarrow> failure + response" where
  \<comment> \<open>the handler of \<open>POST /api/validate\<close>\<close>
  "validate e req =
     (case req_file req of
        None \<Rightarrow> Inl MissingFile
      | Some buf \<Rightarrow>
          (let opts = mkOptions e (req_query req);
               base = mkEpubBasePath (req_query req)
           in case unzipToMap e buf of
                None \<Rightarrow> Inl ServerError
              | Some files \<Rightarrow>
                  (let root = contentRootOf e files;
                       manifestAbs = manifestAbsOf e files opts root;
                       candidatesAbs = candidatesAbsOf files opts manifestAbs
                   in case collectReferences e files root opts of
                        None \<Rightarrow> Inl ServerError
                      | Some usedAbs \<Rightarrow>
                          (case classify e files opts usedAbs base candidatesAbs of
                             (unref, over) \<Rightarrow>
                               Inr \<lparr>unreferenced = unref, oversized = over,
                                    contentRoot = root, epubBasePath = base\<rparr>))))"

section \<open>An example archive\<close>

text \<open>
  A small archive and stand-ins for the collaborators, for evaluating the handler on
  concrete requests. \<open>ex_Number\<close> is \<open>Number\<close> on strings of decimal digits and on words
  without digits such as \<open>abc\<close>.
\<close>

definition digit_of :: "char \<Rightarrow> nat option" where
  "digit_of c = (let n = (of_char c :: nat) in if 48 \<le> n \<and> n \<le> 57 then Some (n - 48) else None)"

fun parse_dec :: "nat \<Rightarrow> string \<Rightarrow> nat option" where
  "parse_dec acc [] = Some acc"
| "parse_dec acc (c # cs) =
     (case digit_of c of None \<Rightarrow> None | Some d \<Rightarrow> parse_dec (10 * acc + d) cs)"

definition ex_Number :: "string \<Rightarrow> jsnum" where
  "ex_Number s =
     (if s = [] then Fin 0
      else (case parse_dec 0 s of None \<Rightarrow> NaN | Some n \<Rightarrow> Fin (of_nat n)))"

definition ex_directory :: "zip_entry list" where
  "ex_directory =
     [\<lparr>entry_type = ''File'', entry_path = ''OEBPS/ch1.xhtml'', entry_buffer = Some ''doc''\<rparr>,
      \<lparr>entry_type = ''File'', entry_path = ''OEBPS/images/a.png'', entry_buffer = Some ''A''\<rparr>,
      \<lparr>entry_type = ''File'', entry_path = ''OEBPS/images/b.png'', entry_buffer = Some ''B''\<rparr>,
      \<lparr>entry_type = ''File'', entry_path = ''OEBPS/images/c.png'', entry_buffer = Some ''C''\<rparr>,
      \<lparr>entry_type = ''File'', entry_path = ''OEBPS/images/d.png'', entry_buffer = Some ''D''\<rparr>]"

definition ex_cheerio :: "bool \<Rightarrow> string \<Rightarrow> element list option" where
  \<comment> \<open>the document \<open>doc\<close> holds \<open><img src="images/a.png"/>\<close>\<close>
  "ex_cheerio xmlMode s =
     (if s = ''doc'' then Some [\<lparr>el_tag = ''img'', el_attrs = [(''src'', ''images/a.png'')], el_text = []\<rparr>]
      else Some [])"

definition ex_imageSize :: "string \<Rightarrow> dims option" where
  \<comment> \<open>\<open>a.png\<close> is 3 by 2, \<open>c.png\<close> 4 by 2, \<open>d.png\<close> 5 by 1; the bytes of \<open>b.png\<close> are corrupt\<close>
  "ex_imageSize b =
     (if b = ''A'' then Some \<lparr>width = 3, height = 2\<rparr>
      else if b = ''C'' then Some \<lparr>width = 4, height = 2\<rparr>
      else if b = ''D'' then Some \<lparr>width = 5, height = 1\<rparr>
      else None)"

definition ex_env :: env where
  "ex_env =
     \<lparr>cwd = ''/srv'',
      unzipper_Open = (\<lambda>b. if b = ''zip'' then Some ex_directory else None),
      XMLParser_parse = (\<lambda>s. None),
      cheerio_load = ex_cheerio,
      imageSize = ex_imageSize,
      Number_of = ex_Number\<rparr>"

definition ex_query :: query where
  "ex_query =
     \<lparr>q_includeHtml = None, q_includeCss = None, q_includeSvg = None,
      q_searchAllImages = None, q_followOpfManifestOnly = None,
      q_pixelThreshold = Some ''6'', q_epubBasePath = None\<rparr>"

definition ex_request :: request where
  "ex_request = \<lparr>req_file = Some ''zip'', req_query = ex_query\<rparr>"

definition ex_files :: files where
  "ex_files =
     [(''OEBPS/ch1.xhtml'', \<lparr>path = ''OEBPS/ch1.xhtml'', buffer = ''doc''\<rparr>),
      (''OEBPS/images/a.png'', \<lparr>path = ''OEBPS/images/a.png'', buffer = ''A''\<rparr>),
      (''OEBPS/images/b.png'', \<lparr>path = ''OEBPS/images/b.png'', buffer = ''B''\<rparr>),
      (''OEBPS/images/c.png'', \<lparr>path = ''OEBPS/images/c.png'', buffer = ''C''\<rparr>),
      (''OEBPS/images/d.png'', \<lparr>path = ''OEBPS/images/d.png'', buffer = ''D''\<rparr>)]"

definition ex_response :: response where
  "ex_response =
     \<lparr>unreferenced =
        [\<lparr>file_name = ''b.png'', internalPath = ''OEBPS/images/b.png'', fullPath = ''OEBPS/images/b.png''\<rparr>,
         \<lparr>file_name = ''c.png'', internalPath = ''OEBPS/images/c.png'', fullPath = ''OEBPS/images/c.png''\<rparr>,
         \<lparr>file_name = ''d.png'', internalPath = ''OEBPS/images/d.png'', fullPath = ''OEBPS/images/d.png''\<rparr>],
      oversized =
        [\<lparr>file_name = ''a.png'', internalPath = ''OEBPS/images/a.png'', fullPath = ''OEBPS/images/a.png'',
          img_width = 3, img_height = 2, px = 6\<rparr>,
         \<lparr>file_name = ''c.png'', internalPath = ''OEBPS/images/c.png'', fullPath = ''OEBPS/images/c.png'',
          img_width = 4, img_height = 2, px = 8\<rparr>],
      contentRoot = [], epubBasePath = []\<rparr>"

definition ex_request_manifest_only :: request where
  "ex_request_manifest_only =
     \<lparr>req_file = Some ''zip'', req_query = ex_query\<lparr>q_followOpfManifestOnly := Some ''true''\<rparr>\<rparr>"

definition ex_env_bad_markup :: env where
  \<comment> \<open>as \<open>ex_env\<close>, but \<open>cheerio.load\<close> throws on the document \<open>doc\<close>\<close>
  "ex_env_bad_markup =
     ex_env\<lparr>cheerio_load := (\<lambda>xmlMode s. if s = ''doc'' then None else ex_cheerio xmlMode s)\<rparr>"

section \<open>Properties\<close>

subsection \<open>Strings and paths\<close>

lemma startsWith_Nil [simp]: "startsWith s [] = True"
  by (simp add: startsWith_def)

lemma startsWith_Nil_Cons [simp]: "startsWith [] (t # ts) = False"
  by (simp add: startsWith_def)

lemma startsWith_Cons_Cons [simp]: "startsWith (x # xs) (t # ts) = (x = t \<and> startsWith xs ts)"
  by (auto simp: startsWith_def)


lemma startsWith_length: "startsWith s t \<Longrightarrow> length t \<le> length s"
proof -
  assume "startsWith s t"
  then have "length (take (length t) s) = length t"
    by (simp only: startsWith_def)
  then show ?thesis by simp
qed

lemma split_on_not_Nil [simp]: "split_on c s \<noteq> []"
  by (induction s) (auto split: list.splits)

lemma hd_split_on_Cons:
  "hd (split_on c (x # xs)) = (if x = c then [] else x # hd (split_on c xs))"
  by (auto split: list.splits)

lemma normalize_js_Nil_iff [simp]: "normalize_js p = [] \<longleftrightarrow> p = []"
  by (simp add: normalize_js_def)

lemma posix_normalize_not_Nil [simp]: "posix_normalize p \<noteq> []"
  by (auto simp: posix_normalize_def Let_def)

lemma tok_len_le: "tok_len ts s \<le> length s"
  by (induction ts) (auto dest: startsWith_length)

lemma tok_len_Nil [simp]: "tok_len ts [] = 0"
proof (induction ts)
  case Nil
  then show ?case by simp
next
  case (Cons t ts)
  then show ?case by (cases t) simp_all
qed

lemma tok_len_Cons_free:
  "\<forall>t \<in> set ts. c \<notin> set t \<Longrightarrow> tok_len ts (c # s) = 0"
proof (induction ts)
  case Nil
  then show ?case by simp
next
  case (Cons t ts)
  then show ?case by (cases t) auto
qed

lemma startsWith_snoc:
  "c \<notin> set t \<Longrightarrow> startsWith (xs @ [c]) t = startsWith xs t"
proof (cases "length t \<le> length xs")
  case True
  then show ?thesis by (simp add: startsWith_def)
next
  case False
  assume c: "c \<notin> set t"
  from False have l: "length xs < length t" by simp
  have "\<not> startsWith xs t" using l startsWith_length by fastforce
  moreover have "\<not> startsWith (xs @ [c]) t"
  proof
    assume "startsWith (xs @ [c]) t"
    then have "take (length t) (xs @ [c]) = t" by (simp add: startsWith_def)
    with l have "xs @ [c] = t" by simp
    with c show False by auto
  qed
  ultimately show ?thesis by simp
qed

lemma tok_len_snoc:
  "\<forall>t \<in> set ts. c \<notin> set t \<Longrightarrow> tok_len ts (xs @ [c]) = tok_len ts xs"
  by (induction ts) (auto simp: startsWith_snoc)

lemma strip_toks_snoc:
  "\<forall>t \<in> set ts. c \<notin> set t \<Longrightarrow> n \<le> length xs \<Longrightarrow>
     strip_toks ts n (xs @ [c]) = strip_toks ts n xs @ [c]"
proof (induction ts n xs rule: strip_toks.induct)
  case (1 ts n)
  then show ?case by (simp add: tok_len_Cons_free)
next
  case (2 ts n x xs)
  then show ?case by simp
next
  case (3 ts x xs)
  have le: "tok_len ts (x # xs) \<le> Suc (length xs)"
    using tok_len_le [of ts "x # xs"] by simp
  have eq: "tok_len ts (x # xs @ [c]) = tok_len ts (x # xs)"
    using tok_len_snoc [of ts c "x # xs"] 3(2) by simp
  show ?case
  proof (cases "tok_len ts (x # xs)")
    case 0
    then show ?thesis using eq by simp
  next
    case (Suc m)
    then have "m \<le> length xs" using le by simp
    then show ?thesis using 3 Suc eq by simp
  qed
qed

lemma ws_tokens_free:
  "c \<notin> set (concat ws_tokens) \<Longrightarrow> \<forall>t \<in> set ws_tokens. c \<notin> set t"
  by auto

lemma trim_Cons:
  assumes "c \<notin> set (concat ws_tokens)"
  shows "trim (c # s) = c # rev (strip_toks (map rev ws_tokens) 0 (rev s))"
proof -
  have a: "\<forall>t \<in> set ws_tokens. c \<notin> set t" using assms by auto
  have "tok_len ws_tokens (c # s) = 0"
    using a by (rule tok_len_Cons_free)
  then have s1: "strip_toks ws_tokens 0 (c # s) = c # s" by simp
  have b: "\<forall>t \<in> set (map rev ws_tokens). c \<notin> set t" using a by auto
  have s2: "strip_toks (map rev ws_tokens) 0 (rev s @ [c])
      = strip_toks (map rev ws_tokens) 0 (rev s) @ [c]"
    by (rule strip_toks_snoc [OF b]) simp
  have "trim (c # s) = rev (strip_toks (map rev ws_tokens) 0 (rev (c # s)))"
    by (simp only: trim_def s1)
  also have "\<dots> = rev (strip_toks (map rev ws_tokens) 0 (rev s) @ [c])"
    by (simp only: rev.simps s2)
  finally show ?thesis by simp
qed






lemma not_letter_hash: "\<not> is_ascii_letter CHR ''#''"
  by (simp add: is_ascii_letter_def)

lemma hash_not_ws: "CHR ''#'' \<notin> set (concat ws_tokens)"
  by (simp add: ws_tokens_def)

lemma resolveRef_fragment_only:
  "resolveRef wd basePath (CHR ''#'' # frag) rt =
     (let dir = normalize_js (posix_normalize (safeJoin [baseDirOf basePath, []]))
      in if rt \<noteq> [] \<and> startsWith (posix_relative wd (normalize_js rt) dir) ''..''
         then [] else dir)"
proof -
  have u: "\<not> is_absolute_url (CHR ''#'' # frag)"
    by (simp add: is_absolute_url_def Let_def not_letter_hash)
  have d: "\<not> startsWith (CHR ''#'' # frag) ''data:''" by simp
  have c: "stripQueryAndHash (trim (CHR ''#'' # frag)) = []"
    by (simp add: trim_Cons [OF hash_not_ws] stripQueryAndHash_def)
  have dec: "decodeRef [] = []" by (simp add: decodeRef_def decodeURI_def)
  show ?thesis
    by (simp add: resolveRef_def u d c dec Let_def)
qed

text \<open>
  Claim C5, amended. The empty reference is unresolvable. A reference that is only a fragment
  is stripped to the empty string after the test for emptiness, and that empty remainder is
  joined to the directory of the base path: the result is the normalized directory, or the
  empty string when a root is given and the directory lies outside it. With an empty root it
  is never the empty string.
\<close>

theorem C5_empty_unresolvable_fragment_resolves_directory:
  "resolveRef wd basePath [] rt = []
   \<and> resolveRef wd basePath (CHR ''#'' # frag) rt =
       (let dir = normalize_js (posix_normalize (safeJoin [baseDirOf basePath, []]))
        in if rt \<noteq> [] \<and> startsWith (posix_relative wd (normalize_js rt) dir) ''..''
           then [] else dir)
   \<and> resolveRef wd basePath (CHR ''#'' # frag) [] \<noteq> []"
proof -
  have "resolveRef wd basePath (CHR ''#'' # frag) [] \<noteq> []"
    by (simp add: resolveRef_fragment_only Let_def)
  then show ?thesis
    by (simp add: resolveRef_fragment_only) (simp add: resolveRef_def)
qed

text \<open>
  Claim C5 as stated fails: the fragment-only reference \<open>#anchor\<close> in \<open>OEBPS/ch1.xhtml\<close>
  resolves to the directory \<open>OEBPS/\<close>.
\<close>

theorem C5_counterexample:
  "resolveRef ''/srv'' ''OEBPS/ch1.xhtml'' ''#anchor'' ''OEBPS/'' = ''OEBPS/''"
  by code_simp

theorem C5_witness:
  "resolveRef ''/srv'' ''OEBPS/ch1.xhtml'' [] ''OEBPS/'' = []
   \<and> resolveRef ''/srv'' ''ch1.xhtml'' ''#top'' [] = ''.''"
proof -
  have "resolveRef ''/srv'' ''ch1.xhtml'' ''#top'' [] = ''.''"
    using C5_empty_unresolvable_fragment_resolves_directory [of "''/srv''" "''ch1.xhtml''" "[]" "''top''"]
    by code_simp
  then show ?thesis
    using C5_empty_unresolvable_fragment_resolves_directory [of "''/srv''" "''OEBPS/ch1.xhtml''" "''OEBPS/''" "[]"]
    by simp
qed

lemma DEFAULT_not_zero: "Fin DEFAULT_PIXEL_THRESHOLD \<noteq> Fin 0"
  by (simp add: DEFAULT_PIXEL_THRESHOLD_def)

text \<open>
  Claim C10. When the query has no \<open>pixelThreshold\<close>, or \<open>Number\<close> of it is \<open>NaN\<close> or
  zero, the threshold of the options is the default 5600000. The threshold of the options is
  never zero and never \<open>NaN\<close>.
\<close>

theorem C10_threshold_falls_back_to_default:
  "(q_pixelThreshold q = None
      \<or> (\<exists>s. q_pixelThreshold q = Some s \<and> (Number_of e s = NaN \<or> Number_of e s = Fin 0))
    \<longrightarrow> pixelThreshold (mkOptions e q) = Fin DEFAULT_PIXEL_THRESHOLD)
   \<and> pixelThreshold (mkOptions e q) \<noteq> Fin 0
   \<and> pixelThreshold (mkOptions e q) \<noteq> NaN"
  by (auto simp: mkOptions_def effectiveThreshold_def Let_def js_truthy_def or_empty_def
      DEFAULT_PIXEL_THRESHOLD_def split: option.splits)

theorem C10_witness:
  "q_pixelThreshold (ex_query\<lparr>q_pixelThreshold := Some ''0''\<rparr>) = Some ''0''
   \<and> Number_of ex_env ''0'' = Fin 0
   \<and> pixelThreshold (mkOptions ex_env (ex_query\<lparr>q_pixelThreshold := Some ''0''\<rparr>))
       = Fin DEFAULT_PIXEL_THRESHOLD
   \<and> Number_of ex_env ''abc'' = NaN
   \<and> pixelThreshold (mkOptions ex_env (ex_query\<lparr>q_pixelThreshold := Some ''abc''\<rparr>))
       = Fin DEFAULT_PIXEL_THRESHOLD
   \<and> pixelThreshold (mkOptions ex_env (ex_query\<lparr>q_pixelThreshold := None\<rparr>))
       = Fin DEFAULT_PIXEL_THRESHOLD"
proof -
  have z: "Number_of ex_env ''0'' = Fin 0" by code_simp
  have n: "Number_of ex_env ''abc'' = NaN" by code_simp
  show ?thesis
    using z n
      C10_threshold_falls_back_to_default [of "ex_query\<lparr>q_pixelThreshold := Some ''0''\<rparr>" ex_env]
      C10_threshold_falls_back_to_default [of "ex_query\<lparr>q_pixelThreshold := Some ''abc''\<rparr>" ex_env]
      C10_threshold_falls_back_to_default [of "ex_query\<lparr>q_pixelThreshold := None\<rparr>" ex_env]
    by simp
qed

subsection \<open>The request handler\<close>

lemma classify_eq:
  "classify e files opts usedAbs base cands =
     (concat (map (unreferenced_of usedAbs base) cands),
      concat (map (oversized_of e files opts base) cands))"
  by (induction cands) simp_all

lemma unreferenced_of_path:
  "map internalPath (unreferenced_of usedAbs base c) = (if c \<notin> set usedAbs then [c] else [])"
  unfolding unreferenced_of_def by simp

lemma unreferenced_paths:
  "map internalPath (concat (map (unreferenced_of usedAbs base) cands))
     = filter (\<lambda>p. p \<notin> set usedAbs) cands"
  by (induction cands) (simp_all add: unreferenced_of_path)

lemma oversized_of_not_image: "\<not> IMG_EXT_REGEX p \<Longrightarrow> oversized_of e files opts base p = []"
  by (simp add: oversized_of_def)

lemma oversized_of_missing: "Map_get files p = None \<Longrightarrow> oversized_of e files opts base p = []"
  by (simp add: oversized_of_def)

lemma oversized_of_probe_fails:
  "Map_get files p = Some obj \<Longrightarrow> imageSize e (buffer obj) = None
     \<Longrightarrow> oversized_of e files opts base p = []"
  by (simp add: oversized_of_def)

lemma oversized_of_probed:
  "IMG_EXT_REGEX p \<Longrightarrow> Map_get files p = Some obj \<Longrightarrow> imageSize e (buffer obj) = Some d
     \<Longrightarrow> map internalPath (oversized_of e files opts base p)
         = (if width d \<noteq> 0 \<and> height d \<noteq> 0 \<and> area_ge (width d * height d) (pixelThreshold opts)
            then [p] else [])"
  by (simp add: oversized_of_def)

lemma oversized_of_path:
  "set (map internalPath (oversized_of e files opts base p)) \<subseteq> {p}"
proof (cases "IMG_EXT_REGEX p")
  case False
  then show ?thesis by (simp add: oversized_of_not_image)
next
  case True
  show ?thesis
  proof (cases "Map_get files p")
    case None
    then show ?thesis by (simp add: oversized_of_missing)
  next
    case (Some obj)
    show ?thesis
    proof (cases "imageSize e (buffer obj)")
      case None
      with Some show ?thesis by (simp add: oversized_of_probe_fails)
    next
      case (Some d)
      with True \<open>Map_get files p = Some obj\<close> show ?thesis
        by (simp only: oversized_of_probed split: if_splits) simp
    qed
  qed
qed

lemma oversized_paths:
  "p \<in> set (map internalPath (concat (map (oversized_of e files opts base) cands)))
     \<longleftrightarrow> p \<in> set cands \<and> p \<in> set (map internalPath (oversized_of e files opts base p))"
proof (induction cands)
  case Nil
  then show ?case by simp
next
  case (Cons c cands)
  have "p \<in> set (map internalPath (oversized_of e files opts base c))
      \<longleftrightarrow> p = c \<and> p \<in> set (map internalPath (oversized_of e files opts base p))"
    using oversized_of_path [of e files opts base c] by auto
  then show ?case using Cons by auto
qed

lemma validate_Inr:
  assumes "validate e req = Inr r"
  obtains buf files usedAbs where
    "req_file req = Some buf" "unzipToMap e buf = Some files"
    "contentRoot r = contentRootOf e files"
    "epubBasePath r = mkEpubBasePath (req_query req)"
    "collectReferences e files (contentRootOf e files) (mkOptions e (req_query req)) = Some usedAbs"
    "unreferenced r = concat (map (unreferenced_of usedAbs (mkEpubBasePath (req_query req)))
        (candidatesAbsOf files (mkOptions e (req_query req))
           (manifestAbsOf e files (mkOptions e (req_query req)) (contentRootOf e files))))"
    "oversized r = concat (map (oversized_of e files (mkOptions e (req_query req)) (mkEpubBasePath (req_query req)))
        (candidatesAbsOf files (mkOptions e (req_query req))
           (manifestAbsOf e files (mkOptions e (req_query req)) (contentRootOf e files))))"
  using assms
  by (auto simp: validate_def Let_def classify_eq split: option.splits)

lemma validate_runs:
  assumes "req_file req = Some buf" "unzipToMap e buf = Some files"
    "collectReferences e files (contentRootOf e files) (mkOptions e (req_query req)) = Some usedAbs"
  shows "\<exists>r. validate e req = Inr r"
  using assms by (simp add: validate_def Let_def classify_eq)





lemma isImageFile_regex: "isImageFile p \<Longrightarrow> IMG_EXT_REGEX p"
  by (auto simp: isImageFile_def IMG_EXT_REGEX_def Let_def)

lemma candidate_props:
  assumes "p \<in> set (candidatesAbsOf files opts m)"
  shows "isImageFile p" and "p \<in> fst ` set files"
    and "followOpfManifestOnly opts \<longrightarrow> p \<in> set m"
  using assms by (auto simp: candidatesAbsOf_def listCandidateImages_def)

lemma Map_get_key: "p \<in> fst ` set files \<Longrightarrow> \<exists>obj. Map_get files p = Some obj"
  by (metis Map_get_def domIff dom_map_of_conv_image_fst not_Some_eq)

lemma ex_unzip: "unzipToMap ex_env ''zip'' = Some ex_files"
  by code_simp

lemma ex_validate: "validate ex_env ex_request = Inr ex_response"
  by code_simp

lemma ex_used: "collectReferences ex_env ex_files [] (mkOptions ex_env ex_query) = Some [''OEBPS/images/a.png'']"
  by code_simp

lemma ex_cands: "candidatesAbsOf ex_files (mkOptions ex_env ex_query)
     (manifestAbsOf ex_env ex_files (mkOptions ex_env ex_query) [])
   = [''OEBPS/images/a.png'', ''OEBPS/images/b.png'', ''OEBPS/images/c.png'', ''OEBPS/images/d.png'']"
  by code_simp

text \<open>
  Claim C3 as stated fails: with \<open>followOpfManifestOnly\<close> set and no container document,
  the manifest set is empty, and none of the four candidates is classified.
\<close>

theorem C3_counterexample:
  "followOpfManifestOnly (mkOptions ex_env (req_query ex_request_manifest_only))
   \<and> manifestAbsOf ex_env ex_files (mkOptions ex_env (req_query ex_request_manifest_only))
        (contentRootOf ex_env ex_files) = []
   \<and> listCandidateImages ex_files (mkOptions ex_env (req_query ex_request_manifest_only))
        = [''OEBPS/images/a.png'', ''OEBPS/images/b.png'', ''OEBPS/images/c.png'', ''OEBPS/images/d.png'']
   \<and> validate ex_env ex_request_manifest_only
        = Inr \<lparr>unreferenced = [], oversized = [], contentRoot = [], epubBasePath = []\<rparr>"
  by code_simp

text \<open>
  Claim C9 at a markup document: when \<open>cheerio.load\<close> throws on \<open>OEBPS/ch1.xhtml\<close> the
  exception leaves \<open>collectReferences\<close> and the handler answers with status 500 instead
  of a classification.
\<close>

theorem C9_markup_parse_failure_aborts:
  "validate ex_env_bad_markup ex_request = Inl ServerError"
  by code_simp




lemma candidatesAbsOf_eq:
  "candidatesAbsOf files opts m =
     (if followOpfManifestOnly opts then filter (\<lambda>p. p \<in> set m) (listCandidateImages files opts)
      else listCandidateImages files opts)"
  by (simp add: candidatesAbsOf_def)

lemma oversized_subset:
  "set (map internalPath (concat (map (oversized_of e files opts base) cands))) \<subseteq> set cands"
  using oversized_paths [of _ e files opts base cands] by blast

text \<open>
  Claim C3, amended. With \<open>followOpfManifestOnly\<close> set the candidates are the image files
  that are in the manifest set, whether that set is empty or not; without it they are all
  the image files. Both result lists hold candidates only, so with the option set and an
  empty manifest set both lists are empty.
\<close>

theorem C3_manifest_restriction_also_when_empty:
  assumes "validate e req = Inr r" and "req_file req = Some buf" and "unzipToMap e buf = Some files"
    and "opts = mkOptions e (req_query req)"
    and "m = manifestAbsOf e files opts (contentRoot r)"
  shows "candidatesAbsOf files opts m =
           (if followOpfManifestOnly opts then filter (\<lambda>p. p \<in> set m) (listCandidateImages files opts)
            else listCandidateImages files opts)
     \<and> set (map internalPath (unreferenced r)) \<subseteq> set (candidatesAbsOf files opts m)
     \<and> set (map internalPath (oversized r)) \<subseteq> set (candidatesAbsOf files opts m)
     \<and> (followOpfManifestOnly opts \<and> m = [] \<longrightarrow> unreferenced r = [] \<and> oversized r = [])"
proof -
  from assms(1) obtain buf' files' usedAbs where
    b: "req_file req = Some buf'" and f: "unzipToMap e buf' = Some files'"
    and rt: "contentRoot r = contentRootOf e files'"
    and un: "unreferenced r = concat (map (unreferenced_of usedAbs (mkEpubBasePath (req_query req)))
        (candidatesAbsOf files' (mkOptions e (req_query req))
           (manifestAbsOf e files' (mkOptions e (req_query req)) (contentRootOf e files'))))"
    and ov: "oversized r = concat (map (oversized_of e files' (mkOptions e (req_query req)) (mkEpubBasePath (req_query req)))
        (candidatesAbsOf files' (mkOptions e (req_query req))
           (manifestAbsOf e files' (mkOptions e (req_query req)) (contentRootOf e files'))))"
    by (rule validate_Inr)
  from b f assms(2,3) have ff: "files' = files" by simp
  let ?base = "mkEpubBasePath (req_query req)"
  let ?cands = "candidatesAbsOf files opts m"
  have un': "unreferenced r = concat (map (unreferenced_of usedAbs ?base) ?cands)"
    using un by (simp only: ff assms(4,5) rt)
  have ov': "oversized r = concat (map (oversized_of e files opts ?base) ?cands)"
    using ov by (simp only: ff assms(4,5) rt)
  have s1: "set (map internalPath (unreferenced r)) \<subseteq> set ?cands"
    by (simp only: un' unreferenced_paths) auto
  have s2: "set (map internalPath (oversized r)) \<subseteq> set ?cands"
    by (simp only: ov' oversized_subset)
  have empty: "followOpfManifestOnly opts \<and> m = [] \<longrightarrow> unreferenced r = [] \<and> oversized r = []"
    by (simp add: un' ov' candidatesAbsOf_eq)
  from s1 s2 empty show ?thesis by (simp only: candidatesAbsOf_eq simp_thms)
qed

lemma ex_manifest_only:
  "validate ex_env ex_request_manifest_only
     = Inr \<lparr>unreferenced = [], oversized = [], contentRoot = [], epubBasePath = []\<rparr>"
  by code_simp

theorem C3_witness:
  "validate ex_env ex_request_manifest_only
     = Inr \<lparr>unreferenced = [], oversized = [], contentRoot = [], epubBasePath = []\<rparr>
   \<and> req_file ex_request_manifest_only = Some ''zip''
   \<and> unzipToMap ex_env ''zip'' = Some ex_files
   \<and> candidatesAbsOf ex_files (mkOptions ex_env (req_query ex_request_manifest_only))
        (manifestAbsOf ex_env ex_files (mkOptions ex_env (req_query ex_request_manifest_only)) [])
      = (if followOpfManifestOnly (mkOptions ex_env (req_query ex_request_manifest_only))
         then filter (\<lambda>p. p \<in> set (manifestAbsOf ex_env ex_files (mkOptions ex_env (req_query ex_request_manifest_only)) []))
                (listCandidateImages ex_files (mkOptions ex_env (req_query ex_request_manifest_only)))
         else listCandidateImages ex_files (mkOptions ex_env (req_query ex_request_manifest_only)))"
proof -
  have r: "req_file ex_request_manifest_only = Some ''zip''"
    by (simp add: ex_request_manifest_only_def)
  show ?thesis
    using C3_manifest_restriction_also_when_empty [OF ex_manifest_only r ex_unzip refl refl]
      ex_manifest_only r ex_unzip
    by simp
qed

lemma validate_lists:
  assumes "validate e req = Inr r" and "req_file req = Some buf" and "unzipToMap e buf = Some files"
  obtains usedAbs where
    "collectReferences e files (contentRoot r) (mkOptions e (req_query req)) = Some usedAbs"
    "unreferenced r = concat (map (unreferenced_of usedAbs (mkEpubBasePath (req_query req)))
        (candidatesAbsOf files (mkOptions e (req_query req))
           (manifestAbsOf e files (mkOptions e (req_query req)) (contentRoot r))))"
    "oversized r = concat (map (oversized_of e files (mkOptions e (req_query req)) (mkEpubBasePath (req_query req)))
        (candidatesAbsOf files (mkOptions e (req_query req))
           (manifestAbsOf e files (mkOptions e (req_query req)) (contentRoot r))))"
proof -
  from assms(1) obtain buf' files' usedAbs where
    b: "req_file req = Some buf'" and f: "unzipToMap e buf' = Some files'"
    and rt: "contentRoot r = contentRootOf e files'"
    and u: "collectReferences e files' (contentRootOf e files') (mkOptions e (req_query req)) = Some usedAbs"
    and un: "unreferenced r = concat (map (unreferenced_of usedAbs (mkEpubBasePath (req_query req)))
        (candidatesAbsOf files' (mkOptions e (req_query req))
           (manifestAbsOf e files' (mkOptions e (req_query req)) (contentRootOf e files'))))"
    and ov: "oversized r = concat (map (oversized_of e files' (mkOptions e (req_query req)) (mkEpubBasePath (req_query req)))
        (candidatesAbsOf files' (mkOptions e (req_query req))
           (manifestAbsOf e files' (mkOptions e (req_query req)) (contentRootOf e files'))))"
    by (rule validate_Inr)
  from b f assms(2,3) have ff: "files' = files" by simp
  show ?thesis
    using that [of usedAbs] u un ov by (simp only: ff rt)
qed



lemma ex_threshold: "pixelThreshold (mkOptions ex_env (req_query ex_request)) = Fin 6"
  by code_simp

lemma ex_request_file: "req_file ex_request = Some ''zip''"
  by (simp add: ex_request_def)

lemma ex_root: "contentRoot ex_response = []"
  by (simp add: ex_response_def)

lemma ex_candidates:
  "candidatesAbsOf ex_files (mkOptions ex_env (req_query ex_request))
     (manifestAbsOf ex_env ex_files (mkOptions ex_env (req_query ex_request)) (contentRoot ex_response))
   = [''OEBPS/images/a.png'', ''OEBPS/images/b.png'', ''OEBPS/images/c.png'', ''OEBPS/images/d.png'']"
  by code_simp


lemma file_hrefs_probe [simp]: "file_hrefs (e\<lparr>imageSize := f\<rparr>) opts p obj = file_hrefs e opts p obj"
  by (simp add: file_hrefs_def)

lemma add_ref_probe [simp]: "add_ref (e\<lparr>imageSize := f\<rparr>) = add_ref e"
  by (intro ext) (simp add: add_ref_def)

lemma collect_loop_probe [simp]:
  "collect_loop (e\<lparr>imageSize := f\<rparr>) rt opts fs usedAbs = collect_loop e rt opts fs usedAbs"
  by (induction fs arbitrary: usedAbs) (auto split: option.splits)

lemma collectReferences_probe [simp]:
  "collectReferences (e\<lparr>imageSize := f\<rparr>) files rt opts = collectReferences e files rt opts"
  by (simp add: collectReferences_def)

lemma unzipToMap_probe [simp]: "unzipToMap (e\<lparr>imageSize := f\<rparr>) buf = unzipToMap e buf"
  by (simp add: unzipToMap_def)

lemma getContentRoot_probe [simp]:
  "getContentRootFromContainerXml (e\<lparr>imageSize := f\<rparr>) xml = getContentRootFromContainerXml e xml"
  by (simp add: getContentRootFromContainerXml_def)

lemma contentRootOf_probe [simp]: "contentRootOf (e\<lparr>imageSize := f\<rparr>) files = contentRootOf e files"
  by (simp add: contentRootOf_def split: option.splits)

lemma getManifestImages_probe [simp]:
  "getManifestImagesFromOpf (e\<lparr>imageSize := f\<rparr>) xml = getManifestImagesFromOpf e xml"
  by (simp add: getManifestImagesFromOpf_def)

lemma manifestAbsOf_probe [simp]:
  "manifestAbsOf (e\<lparr>imageSize := f\<rparr>) files opts rt = manifestAbsOf e files opts rt"
  by (simp add: manifestAbsOf_def split: option.splits list.splits)

lemma mkOptions_probe [simp]: "mkOptions (e\<lparr>imageSize := f\<rparr>) q = mkOptions e q"
  by (simp add: mkOptions_def effectiveThreshold_def)

lemma validate_probe:
  assumes "validate e req = Inr r"
  shows "\<exists>r'. validate (e\<lparr>imageSize := f\<rparr>) req = Inr r' \<and> unreferenced r' = unreferenced r"
proof -
  from assms obtain buf files usedAbs where
    b: "req_file req = Some buf" and fl: "unzipToMap e buf = Some files"
    and u: "collectReferences e files (contentRootOf e files) (mkOptions e (req_query req)) = Some usedAbs"
    and un: "unreferenced r = concat (map (unreferenced_of usedAbs (mkEpubBasePath (req_query req)))
        (candidatesAbsOf files (mkOptions e (req_query req))
           (manifestAbsOf e files (mkOptions e (req_query req)) (contentRootOf e files))))"
    by (rule validate_Inr)
  show ?thesis
    using b fl u by (simp add: validate_def Let_def classify_eq un)
qed

text \<open>
  Claim C8. For a candidate of a run that answers: it is in \<open>unreferenced\<close> exactly when it
  is not in the used set, whatever its probe returns; when its probe fails it is not in
  \<open>oversized\<close>; when it is not used and its probe returns dimensions whose area reaches
  the threshold it is in both lists. Replacing the probe by any other one, also one that
  fails on every image, leaves the run answering with the same \<open>unreferenced\<close> list.
\<close>

theorem C8_unreferenced_and_oversized_independent:
  assumes "validate e req = Inr r" and "req_file req = Some buf" and "unzipToMap e buf = Some files"
    and "collectReferences e files (contentRoot r) (mkOptions e (req_query req)) = Some usedAbs"
    and "p \<in> set (candidatesAbsOf files (mkOptions e (req_query req))
           (manifestAbsOf e files (mkOptions e (req_query req)) (contentRoot r)))"
    and "Map_get files p = Some obj"
  shows "(p \<in> set (map internalPath (unreferenced r)) \<longleftrightarrow> p \<notin> set usedAbs)
     \<and> (imageSize e (buffer obj) = None \<longrightarrow> p \<notin> set (map internalPath (oversized r)))
     \<and> (\<forall>d. p \<notin> set usedAbs \<and> imageSize e (buffer obj) = Some d \<and> width d \<noteq> 0 \<and> height d \<noteq> 0
            \<and> area_ge (width d * height d) (pixelThreshold (mkOptions e (req_query req)))
          \<longrightarrow> p \<in> set (map internalPath (unreferenced r)) \<and> p \<in> set (map internalPath (oversized r)))
     \<and> (\<forall>probe. \<exists>r'. validate (e\<lparr>imageSize := probe\<rparr>) req = Inr r' \<and> unreferenced r' = unreferenced r)"
proof -
  let ?opts = "mkOptions e (req_query req)"
  let ?cands = "candidatesAbsOf files ?opts (manifestAbsOf e files ?opts (contentRoot r))"
  from assms(1-3) obtain usedAbs' where
    u: "collectReferences e files (contentRoot r) ?opts = Some usedAbs'"
    and un: "unreferenced r = concat (map (unreferenced_of usedAbs' (mkEpubBasePath (req_query req))) ?cands)"
    and ov: "oversized r = concat (map (oversized_of e files ?opts (mkEpubBasePath (req_query req))) ?cands)"
    by (rule validate_lists)
  from u assms(4) have uu: "usedAbs' = usedAbs" by simp
  have unref: "p \<in> set (map internalPath (unreferenced r)) \<longleftrightarrow> p \<notin> set usedAbs"
    using assms(5) by (simp only: un uu unreferenced_paths) simp
  have fails: "imageSize e (buffer obj) = None \<longrightarrow> p \<notin> set (map internalPath (oversized r))"
    unfolding ov oversized_paths by (simp add: oversized_of_probe_fails [OF assms(6)])
  have img: "IMG_EXT_REGEX p"
    using assms(5) candidate_props(1) isImageFile_regex by blast
  have both: "\<forall>d. p \<notin> set usedAbs \<and> imageSize e (buffer obj) = Some d \<and> width d \<noteq> 0 \<and> height d \<noteq> 0
            \<and> area_ge (width d * height d) (pixelThreshold ?opts)
          \<longrightarrow> p \<in> set (map internalPath (unreferenced r)) \<and> p \<in> set (map internalPath (oversized r))"
  proof (intro allI impI, elim conjE)
    fix d
    assume nu: "p \<notin> set usedAbs" and i: "imageSize e (buffer obj) = Some d"
      and w: "width d \<noteq> 0" and h: "height d \<noteq> 0"
      and a: "area_ge (width d * height d) (pixelThreshold ?opts)"
    have "p \<in> set (map internalPath (oversized r))"
      unfolding ov oversized_paths
      using assms(5) w h a by (simp add: oversized_of_probed [OF img assms(6) i])
    with nu unref show "p \<in> set (map internalPath (unreferenced r)) \<and> p \<in> set (map internalPath (oversized r))"
      by simp
  qed
  have swap: "\<forall>probe. \<exists>r'. validate (e\<lparr>imageSize := probe\<rparr>) req = Inr r' \<and> unreferenced r' = unreferenced r"
    using validate_probe [OF assms(1)] by blast
  from unref fails both swap show ?thesis by (intro conjI)
qed

theorem C8_witness:
  "validate ex_env ex_request = Inr ex_response
   \<and> imageSize ex_env ''B'' = None
   \<and> ''OEBPS/images/b.png'' \<in> set (map internalPath (unreferenced ex_response))
   \<and> ''OEBPS/images/b.png'' \<notin> set (map internalPath (oversized ex_response))
   \<and> imageSize ex_env ''C'' = Some \<lparr>width = 4, height = 2\<rparr>
   \<and> ''OEBPS/images/c.png'' \<in> set (map internalPath (unreferenced ex_response))
   \<and> ''OEBPS/images/c.png'' \<in> set (map internalPath (oversized ex_response))
   \<and> (\<exists>r'. validate (ex_env\<lparr>imageSize := (\<lambda>b. None)\<rparr>) ex_request = Inr r'
         \<and> unreferenced r' = unreferenced ex_response)"
proof -
  have gb: "Map_get ex_files ''OEBPS/images/b.png'' = Some \<lparr>path = ''OEBPS/images/b.png'', buffer = ''B''\<rparr>"
    by (simp add: Map_get_def ex_files_def)
  have gc: "Map_get ex_files ''OEBPS/images/c.png'' = Some \<lparr>path = ''OEBPS/images/c.png'', buffer = ''C''\<rparr>"
    by (simp add: Map_get_def ex_files_def)
  have ib: "imageSize ex_env ''B'' = None"
    by (simp add: ex_env_def ex_imageSize_def)
  have ic: "imageSize ex_env ''C'' = Some \<lparr>width = 4, height = 2\<rparr>"
    by (simp add: ex_env_def ex_imageSize_def)
  have cb: "''OEBPS/images/b.png'' \<in> set (candidatesAbsOf ex_files (mkOptions ex_env (req_query ex_request))
     (manifestAbsOf ex_env ex_files (mkOptions ex_env (req_query ex_request)) (contentRoot ex_response)))"
    by (simp only: ex_candidates) simp
  have cc: "''OEBPS/images/c.png'' \<in> set (candidatesAbsOf ex_files (mkOptions ex_env (req_query ex_request))
     (manifestAbsOf ex_env ex_files (mkOptions ex_env (req_query ex_request)) (contentRoot ex_response)))"
    by (simp only: ex_candidates) simp
  have u: "collectReferences ex_env ex_files (contentRoot ex_response) (mkOptions ex_env (req_query ex_request))
      = Some [''OEBPS/images/a.png'']"
    using ex_used by (simp add: ex_root ex_request_def)
  have b: "''OEBPS/images/b.png'' \<in> set (map internalPath (unreferenced ex_response))
      \<and> ''OEBPS/images/b.png'' \<notin> set (map internalPath (oversized ex_response))
      \<and> (\<exists>r'. validate (ex_env\<lparr>imageSize := (\<lambda>b. None)\<rparr>) ex_request = Inr r'
         \<and> unreferenced r' = unreferenced ex_response)"
    using C8_unreferenced_and_oversized_independent [OF ex_validate ex_request_file ex_unzip u cb gb]
    by (simp add: ib)
  have c: "''OEBPS/images/c.png'' \<in> set (map internalPath (unreferenced ex_response))
      \<and> ''OEBPS/images/c.png'' \<in> set (map internalPath (oversized ex_response))"
    using C8_unreferenced_and_oversized_independent [OF ex_validate ex_request_file ex_unzip u cc gc]
    by (simp add: ic ex_threshold)
  from b c ib ic show ?thesis
    by (simp add: ex_validate)
qed

text \<open>
  The vector branch of \<open>collectReferences\<close> does tolerate a failing parse: for a file that is
  no markup document the references are those of the stylesheet branch alone.
\<close>

lemma svg_parse_failure_tolerated:
  assumes "\<not> isDoc opts p" and "cheerio_load e True (buffer obj) = None"
  shows "file_hrefs e opts p obj
     = Some (if includeCss opts \<and> isCss p then extractUrlsFromCss (buffer obj) else [])"
  using assms by (simp add: file_hrefs_def)

subsection \<open>A leading slash\<close>

lemma strip_toks_suffix: "\<exists>k. strip_toks ts n xs = drop k xs"
proof (induction ts n xs rule: strip_toks.induct)
  case (1 ts n)
  then show ?case by simp
next
  case (2 ts n c cs)
  then obtain k where "strip_toks ts n cs = drop k cs" by blast
  then have "strip_toks ts (Suc n) (c # cs) = drop (Suc k) (c # cs)" by simp
  then show ?case by blast
next
  case (3 ts c cs)
  show ?case
  proof (cases "tok_len ts (c # cs)")
    case 0
    then have "strip_toks ts 0 (c # cs) = drop 0 (c # cs)" by simp
    then show ?thesis by blast
  next
    case (Suc m)
    with 3 obtain k where "strip_toks ts m cs = drop k cs" by blast
    with Suc have "strip_toks ts 0 (c # cs) = drop (Suc k) (c # cs)" by simp
    then show ?thesis by blast
  qed
qed

lemma startsWith_take: "startsWith (take n xs) [c] \<Longrightarrow> startsWith xs [c]"
  by (cases xs; cases n) (simp_all add: startsWith_def)

lemma trim_no_leading_ws:
  assumes "tok_len ws_tokens r = 0"
  shows "trim r = rev (strip_toks (map rev ws_tokens) 0 (rev r))"
proof -
  have "strip_toks ws_tokens 0 r = r" using assms by (cases r) simp_all
  then show ?thesis by (simp add: trim_def)
qed

lemma trim_prefix_head:
  assumes "tok_len ws_tokens r = 0" and "startsWith (trim r) [c]"
  shows "startsWith r [c]"
proof -
  obtain k where "strip_toks (map rev ws_tokens) 0 (rev r) = drop k (rev r)"
    using strip_toks_suffix by blast
  then have "trim r = take (length r - k) r"
    using trim_no_leading_ws [OF assms(1)] by (simp add: rev_drop)
  with assms(2) show ?thesis using startsWith_take by metis
qed

lemma hd_split_on_head:
  "startsWith (hd (split_on k x)) [c] \<Longrightarrow> startsWith x [c]"
  by (cases x) (auto simp: hd_split_on_Cons simp del: split_on.simps(2) split: if_splits)

lemma stripQueryAndHash_head:
  "startsWith (stripQueryAndHash x) [c] \<Longrightarrow> startsWith x [c]"
  unfolding stripQueryAndHash_def by (blast dest: hd_split_on_head)

lemma stripQueryAndHash_slash:
  "stripQueryAndHash (CHR ''/'' # x) = CHR ''/'' # stripQueryAndHash x"
  by (simp add: stripQueryAndHash_def hd_split_on_Cons del: split_on.simps(2))

lemma slash_reserved: "CHR ''/'' \<in> set uriReserved"
  by (simp add: uriReserved_def)

lemma char_of_slash: "b < 256 \<Longrightarrow> char_of b = CHR ''/'' \<Longrightarrow> b = (47::nat)"
proof -
  assume b: "b < 256" and c: "char_of b = CHR ''/''"
  have "of_char (char_of b :: char) = (of_char CHR ''/'' :: nat)" using c by simp
  then show ?thesis using b by simp
qed

lemma decode_toks_head_slash:
  assumes "decode_toks ts = Some d" and "startsWith d ''/''"
  shows "\<exists>ts'. ts = Lit CHR ''/'' # ts'"
proof (cases ts)
  case Nil
  with assms show ?thesis by simp
next
  case (Cons t ts')
  show ?thesis
  proof (cases t)
    case (Lit c)
    with Cons assms show ?thesis by auto
  next
    case (Oct b h1 h2)
    have False
    proof (cases "b < 0x80")
      case True
      with Cons Oct assms show False
        using slash_reserved by (auto split: if_splits)
    next
      case False
      have hi: "\<And>x. \<not> startsWith (char_of b # x) ''/'' \<or> \<not> b < 0xF5"
        using False char_of_slash [of b] by auto
      from Cons Oct assms False hi show False
        by (auto split: if_splits list.splits uri_tok.splits)
    qed
    then show ?thesis ..
  qed
qed

lemma decodeURI_head_slash:
  assumes "decodeURI s = Some d" and "startsWith d ''/''"
  shows "startsWith s ''/''"
proof -
  from assms(1) obtain ts where t: "pct_tokens s = Some ts" and d: "decode_toks ts = Some d"
    by (auto simp: decodeURI_def split: option.splits)
  from decode_toks_head_slash [OF d assms(2)] obtain ts' where ts: "ts = Lit CHR ''/'' # ts'" ..
  show ?thesis
  proof (cases s)
    case Nil
    with t ts show ?thesis by simp
  next
    case (Cons c cs)
    with t ts show ?thesis
      by (auto split: if_splits list.splits option.splits prod.splits)
  qed
qed

lemma decodeRef_head_slash: "startsWith (decodeRef s) ''/'' \<Longrightarrow> startsWith s ''/''"
  by (auto simp: decodeRef_def split: option.splits dest: decodeURI_head_slash)

lemma decodeURI_slash:
  "decodeURI (CHR ''/'' # s) = map_option ((#) CHR ''/'') (decodeURI s)"
  by (cases "pct_tokens s") (simp_all add: decodeURI_def)

lemma decodeRef_slash: "decodeRef (CHR ''/'' # s) = CHR ''/'' # decodeRef s"
  by (cases "decodeURI s") (simp_all add: decodeRef_def decodeURI_slash)

lemma slash_not_ws: "CHR ''/'' \<notin> set (concat ws_tokens)"
  by (simp add: ws_tokens_def)

lemma not_letter_slash: "\<not> is_ascii_letter CHR ''/''"
  by (simp add: is_ascii_letter_def)

text \<open>
  Claim C4, amended. The leading slash of a reference is dropped and what remains is joined
  to the directory of the base path, as for any relative reference: \<open>/x\<close> resolves exactly
  as \<open>x\<close> does, for every \<open>x\<close> that is not empty, does not start with a slash or with white
  space, and is no absolute URL or data URI.
\<close>

theorem C4_leading_slash_dropped_then_relative_to_base:
  assumes "r \<noteq> []" and "\<not> startsWith r ''/''" and "tok_len ws_tokens r = 0"
    and "\<not> is_absolute_url r" and "\<not> startsWith r ''data:''"
  shows "resolveRef wd basePath (CHR ''/'' # r) rt = resolveRef wd basePath r rt"
proof -
  let ?t = "rev (strip_toks (map rev ws_tokens) 0 (rev r))"
  have u: "\<not> is_absolute_url (CHR ''/'' # r)"
    using assms(2) by (simp add: is_absolute_url_def Let_def not_letter_slash)
  have t1: "trim (CHR ''/'' # r) = CHR ''/'' # trim r"
    by (simp only: trim_Cons [OF slash_not_ws] trim_no_leading_ws [OF assms(3)])
  have c1: "decodeRef (stripQueryAndHash (trim (CHR ''/'' # r)))
      = CHR ''/'' # decodeRef (stripQueryAndHash (trim r))"
    by (simp only: t1 stripQueryAndHash_slash decodeRef_slash)
  have ns: "\<not> startsWith (decodeRef (stripQueryAndHash (trim r))) ''/''"
    using assms(2,3) decodeRef_head_slash stripQueryAndHash_head trim_prefix_head by blast
  show ?thesis
    using assms(1,4,5) u ns by (simp add: resolveRef_def c1 Let_def)
qed

text \<open>
  Claim C4 as stated fails: the same reference \<open>/images/a.png\<close> resolves differently from
  two documents inside the root, in each case below the directory of the document and not
  below the root.
\<close>

theorem C4_counterexample:
  "resolveRef ''/srv'' ''OEBPS/text/ch1.xhtml'' ''/images/a.png'' ''OEBPS/'' = ''OEBPS/text/images/a.png''
   \<and> resolveRef ''/srv'' ''OEBPS/ch1.xhtml'' ''/images/a.png'' ''OEBPS/'' = ''OEBPS/images/a.png''"
  by code_simp

theorem C4_witness:
  "resolveRef ''/srv'' ''OEBPS/text/ch1.xhtml'' ''/images/a.png'' ''OEBPS/''
     = resolveRef ''/srv'' ''OEBPS/text/ch1.xhtml'' ''images/a.png'' ''OEBPS/''"
proof -
  have a: "\<not> is_absolute_url ''images/a.png''" by code_simp
  have b: "tok_len ws_tokens ''images/a.png'' = 0" by code_simp
  show ?thesis
    by (rule C4_leading_slash_dropped_then_relative_to_base [OF _ _ b a]) simp_all
qed

subsection \<open>Root containment\<close>













lemma join_with_Nil_iff: "\<forall>s \<in> set S. s \<noteq> [] \<Longrightarrow> join_with sep S = [] \<longleftrightarrow> S = []"
  by (induction sep S rule: join_with.induct) auto









lemma startsWith_self [simp]: "startsWith s s"
  by (simp add: startsWith_def)












end
